theory Spec2Isabelle
  imports Complex_Main "HOL-Library.Product_Lexorder" "HOL-Library.Multiset"
    "HOL-Library.Code_Target_Nat"
begin

section \<open>Content comparator of the website monitoring agent\<close>

text \<open>
  A shallow embedding of \<^verbatim>\<open>src/modules/content_comparator.py\<close>: the class
  \<^verbatim>\<open>ContentComparator\<close> with its methods \<^verbatim>\<open>compare\<close>,
  \<^verbatim>\<open>_normalize_content\<close>, \<^verbatim>\<open>_filter_dynamic_content\<close>,
  \<^verbatim>\<open>_are_similar\<close>, \<^verbatim>\<open>_generate_summary\<close> and \<^verbatim>\<open>_hash\<close>,
  together with the parts of Python's standard library they call (string methods,
  \<^verbatim>\<open>re.search\<close> on the ten patterns, \<^verbatim>\<open>difflib\<close>, the UTF-8 encoder, the
  arithmetic of \<^verbatim>\<open>float\<close>).

  Conventions. A Python \<^verbatim>\<open>str\<close> is a list of code points (natural numbers; Python has
  the code points below 0x110000, the surrogates 0xD800 to 0xDFFF included). A finite
  \<^verbatim>\<open>float\<close> is the rational number it stands for, and every arithmetic operation on
  floats rounds its exact result to the nearest double. Two library functions are parameters
  of the model: the MD5 digest of a byte string and \<^verbatim>\<open>str.lower\<close>. Logging is left out,
  it does not influence any returned value.
\<close>

subsection \<open>Strings\<close>

type_synonym ustring = "nat list"

text \<open>A string written with ASCII characters.\<close>

definition ustr :: "string \<Rightarrow> ustring" where
  "ustr s = map of_char s"

definition NL :: ustring where
  "NL = [0x0A]"

text \<open>\<^verbatim>\<open>str.isspace\<close> on one code point.\<close>

definition isspace :: "nat \<Rightarrow> bool" where
  "isspace c =
     (c \<in> set [0x09, 0x0A, 0x0B, 0x0C, 0x0D, 0x1C, 0x1D, 0x1E, 0x1F, 0x20, 0x85, 0xA0, 0x1680,
                0x2028, 0x2029, 0x202F, 0x205F, 0x3000] \<or>
      (0x2000 \<le> c \<and> c \<le> 0x200A))"

text \<open>The line boundaries of \<^verbatim>\<open>str.splitlines\<close>, the carriage return apart.\<close>

definition is_linebreak :: "nat \<Rightarrow> bool" where
  "is_linebreak c = (c \<in> set [0x0A, 0x0B, 0x0C, 0x1C, 0x1D, 0x1E, 0x85, 0x2028, 0x2029])"

text \<open>
  \<^verbatim>\<open>str.splitlines()\<close>: the text is cut at every line boundary, \<^verbatim>\<open>\r\n\<close> counting
  as one; the boundaries are dropped and a text that ends on a boundary has no final empty line.
\<close>

fun splitlines_acc :: "ustring \<Rightarrow> ustring \<Rightarrow> ustring list" where
  "splitlines_acc cur [] = (if cur = [] then [] else [cur])"
| "splitlines_acc cur [c] =
     (if c = 0x0D \<or> is_linebreak c then [cur] else [cur @ [c]])"
| "splitlines_acc cur (c # d # cs) =
     (if c = 0x0D then
        (if d = 0x0A then cur # splitlines_acc [] cs else cur # splitlines_acc [] (d # cs))
      else if is_linebreak c then cur # splitlines_acc [] (d # cs)
      else splitlines_acc (cur @ [c]) (d # cs))"

definition splitlines :: "ustring \<Rightarrow> ustring list" where
  "splitlines s = splitlines_acc [] s"

text \<open>\<^verbatim>\<open>str.split()\<close> without argument: the maximal runs of non-whitespace.\<close>

fun split_acc :: "ustring \<Rightarrow> ustring \<Rightarrow> ustring list" where
  "split_acc cur [] = (if cur = [] then [] else [cur])"
| "split_acc cur (c # cs) =
     (if isspace c then (if cur = [] then split_acc [] cs else cur # split_acc [] cs)
      else split_acc (cur @ [c]) cs)"

definition split :: "ustring \<Rightarrow> ustring list" where
  "split s = split_acc [] s"

text \<open>\<^verbatim>\<open>sep.join(parts)\<close>.\<close>

fun join :: "ustring \<Rightarrow> ustring list \<Rightarrow> ustring" where
  "join sep [] = []"
| "join sep [x] = x"
| "join sep (x # y # ys) = x @ sep @ join sep (y # ys)"

text \<open>\<^verbatim>\<open>str.strip()\<close> without argument.\<close>

definition strip :: "ustring \<Rightarrow> ustring" where
  "strip s = rev (dropWhile isspace (rev (dropWhile isspace s)))"

text \<open>\<^verbatim>\<open>s.startswith(p)\<close>.\<close>

definition startswith :: "ustring \<Rightarrow> ustring \<Rightarrow> bool" where
  "startswith s p = (take (length p) s = p)"

text \<open>\<^verbatim>\<open>str(n)\<close> for a non-negative integer.\<close>

fun str_nat :: "nat \<Rightarrow> ustring" where
  "str_nat n = (if n < 10 then [48 + n] else str_nat (n div 10) @ [48 + n mod 10])"

declare str_nat.simps [simp del]

subsection \<open>Regular expressions: the dynamic patterns\<close>

text \<open>
  The ten patterns are sequences of quantified atoms: a literal character, \<^verbatim>\<open>\d\<close> or
  \<^verbatim>\<open>.\<close>, each with a least and a greatest number of repetitions (\<open>None\<close>: unbounded).
\<close>

datatype atom = Lit nat | Digit | AnyChar

type_synonym item = "atom \<times> nat \<times> nat option"
type_synonym pattern = "item list"

text \<open>\<^verbatim>\<open>\d\<close> on a \<^verbatim>\<open>str\<close> pattern: the decimal digits of Unicode, that is 61 runs
  of ten digits, given by their zeros, and the mathematical digits 0x1D7CE to 0x1D7FF.\<close>

definition decimal_zeros :: "nat list" where
  "decimal_zeros =
     [0x30, 0x660, 0x6F0, 0x7C0, 0x966, 0x9E6, 0xA66, 0xAE6,
      0xB66, 0xBE6, 0xC66, 0xCE6, 0xD66, 0xDE6, 0xE50, 0xED0,
      0xF20, 0x1040, 0x1090, 0x17E0, 0x1810, 0x1946, 0x19D0, 0x1A80,
      0x1A90, 0x1B50, 0x1BB0, 0x1C40, 0x1C50, 0xA620, 0xA8D0, 0xA900,
      0xA9D0, 0xA9F0, 0xAA50, 0xABF0, 0xFF10, 0x104A0, 0x10D30, 0x11066,
      0x110F0, 0x11136, 0x111D0, 0x112F0, 0x11450, 0x114D0, 0x11650, 0x116C0,
      0x11730, 0x118E0, 0x11950, 0x11C50, 0x11D50, 0x11DA0, 0x16A60, 0x16AC0,
      0x16B50, 0x1E140, 0x1E2F0, 0x1E950, 0x1FBF0]"

definition is_decimal :: "nat \<Rightarrow> bool" where
  "is_decimal c =
     (list_ex (\<lambda>z. z \<le> c \<and> c < z + 10) decimal_zeros \<or> (0x1D7CE \<le> c \<and> c \<le> 0x1D7FF))"

text \<open>The code points that a literal of a pattern matches under \<^verbatim>\<open>re.IGNORECASE\<close>,
  for the literals of the ten patterns (ASCII characters and the copyright sign): a letter
  matches in both cases, and i, s and k have further variants (the dotted and dotless i, the
  long s, the Kelvin sign).\<close>

definition case_variants :: "nat \<Rightarrow> nat list" where
  "case_variants x =
     (let lo = (if 65 \<le> x \<and> x \<le> 90 then x + 32 else x) in
      if 97 \<le> lo \<and> lo \<le> 122 then
        [lo - 32, lo] @
        (if lo = 105 then [0x130, 0x131] else if lo = 115 then [0x17F]
         else if lo = 107 then [0x212A] else [])
      else [x])"

text \<open>One atom against one code point: \<^verbatim>\<open>.\<close> matches anything but a newline.\<close>

definition atom_ok :: "atom \<Rightarrow> nat \<Rightarrow> bool" where
  "atom_ok a c =
     (case a of
        Lit x \<Rightarrow> c \<in> set (case_variants x)
      | Digit \<Rightarrow> is_decimal c
      | AnyChar \<Rightarrow> c \<noteq> 0x0A)"

definition dec_max :: "nat option \<Rightarrow> nat option" where
  "dec_max hi = (case hi of None \<Rightarrow> None | Some h \<Rightarrow> Some (h - 1))"

text \<open>Does the pattern match at the start of the text?\<close>

function match_here :: "pattern \<Rightarrow> ustring \<Rightarrow> bool" where
  "match_here [] s = True"
| "match_here ((a, lo, hi) # its) [] = (if lo = 0 then match_here its [] else False)"
| "match_here ((a, lo, hi) # its) (c # cs) =
     (if lo > 0 then
        (if atom_ok a c then match_here ((a, lo - 1, dec_max hi) # its) cs else False)
      else if match_here its (c # cs) then True
      else if hi = Some 0 then False
      else if atom_ok a c then match_here ((a, 0, dec_max hi) # its) cs
      else False)"
  by pat_completeness auto
termination
  by (relation "measure (\<lambda>(p, s). length p + length s)") auto

text \<open>\<^verbatim>\<open>re.search(pattern, line, re.IGNORECASE)\<close>, read as a truth value: the
  pattern matches at some position of the line.\<close>

definition re_search :: "pattern \<Rightarrow> ustring \<Rightarrow> bool" where
  "re_search p s = list_ex (\<lambda>k. match_here p (drop k s)) [0..<Suc (length s)]"

definition lits :: "string \<Rightarrow> pattern" where
  "lits s = map (\<lambda>c. (Lit (of_char c), 1, Some 1)) s"

definition digits :: "nat \<Rightarrow> nat \<Rightarrow> pattern" where
  "digits lo hi = [(Digit, lo, Some hi)]"

definition any_star :: pattern where
  "any_star = [(AnyChar, 0, None)]"

definition DYNAMIC_PATTERNS :: "pattern list" where
  "DYNAMIC_PATTERNS =
     [digits 4 4 @ lits ''-'' @ digits 2 2 @ lits ''-'' @ digits 2 2,
      digits 2 2 @ lits ''/'' @ digits 2 2 @ lits ''/'' @ digits 4 4,
      digits 1 2 @ lits '':'' @ digits 2 2 @ lits '':'' @ digits 2 2,
      lits ''Updated:'' @ any_star,
      lits ''Last modified:'' @ any_star,
      lits ''Session ID:'' @ any_star,
      lits ''Cookie:'' @ any_star,
      [(Digit, 1, None)] @ lits '' visitor'' @ [(Lit 115, 0, Some 1)] @ lits '' online'',
      lits ''Copyright '' @ [(Lit 0xA9, 1, Some 1)] @ lits '' '' @ digits 4 4,
      lits ''Generated on'' @ any_star]"

subsection \<open>difflib.SequenceMatcher\<close>

text \<open>
  \<^verbatim>\<open>SequenceMatcher(None, a, b)\<close>: no junk predicate, \<^verbatim>\<open>autojunk\<close> left at
  its default \<^verbatim>\<open>True\<close>. The class is generic in the elements of the two sequences:
  the comparator uses it on lists of lines (in \<^verbatim>\<open>unified_diff\<close>) and on the
  characters of two lines (in \<^verbatim>\<open>_are_similar\<close>).
\<close>

text \<open>\<^verbatim>\<open>__chain_b\<close>: an element of a sequence of 200 elements or more is popular
  when it occurs more than \<^verbatim>\<open>n // 100 + 1\<close> times; popular elements lose their entry
  in \<^verbatim>\<open>b2j\<close>. The map \<^verbatim>\<open>b2j\<close> is given by its lookup \<^verbatim>\<open>b2j.get(x, [])\<close>:
  the indices of \<open>x\<close> in \<open>b\<close>, ascending.\<close>

definition popular :: "'a list \<Rightarrow> 'a \<Rightarrow> bool" where
  "popular b x = (if length b \<ge> 200 then count_list b x > length b div 100 + 1 else False)"

definition b2j :: "'a list \<Rightarrow> 'a \<Rightarrow> nat list" where
  "b2j b x = (if popular b x then [] else filter (\<lambda>j. b ! j = x) [0..<length b])"

type_synonym block = "nat \<times> nat \<times> nat"

text \<open>\<^verbatim>\<open>j2len.get(j-1, 0)\<close>: the dictionary \<^verbatim>\<open>j2len\<close> is an association list, and
  the key \<open>-1\<close> that Python looks up for \<open>j = 0\<close> is never present.\<close>

definition j2len_get :: "(nat \<times> nat) list \<Rightarrow> nat \<Rightarrow> nat" where
  "j2len_get j2len j =
     (if j = 0 then 0 else (case map_of j2len (j - 1) of None \<Rightarrow> 0 | Some k \<Rightarrow> k))"

text \<open>The inner loop of \<^verbatim>\<open>find_longest_match\<close> over \<^verbatim>\<open>b2j.get(a[i], nothing)\<close>,
  with its \<^verbatim>\<open>continue\<close> and \<^verbatim>\<open>break\<close>; the state is \<^verbatim>\<open>newj2len\<close> and
  \<^verbatim>\<open>(besti, bestj, bestsize)\<close>.\<close>

fun flm_inner ::
  "(nat \<times> nat) list \<Rightarrow> nat \<Rightarrow> nat \<Rightarrow> nat \<Rightarrow> nat list \<Rightarrow>
   (nat \<times> nat) list \<times> block \<Rightarrow> (nat \<times> nat) list \<times> block" where
  "flm_inner j2len i blo bhi [] st = st"
| "flm_inner j2len i blo bhi (j # js) (newj2len, best) =
     (if j < blo then flm_inner j2len i blo bhi js (newj2len, best)
      else if j \<ge> bhi then (newj2len, best)
      else
        (let k = j2len_get j2len j + 1 in
         flm_inner j2len i blo bhi js
           ((j, k) # newj2len,
            if k > snd (snd best) then (i + 1 - k, j + 1 - k, k) else best)))"

text \<open>The outer loop \<^verbatim>\<open>for i in range(alo, ahi)\<close>.\<close>

fun flm_outer ::
  "'a list \<Rightarrow> 'a list \<Rightarrow> nat \<Rightarrow> nat \<Rightarrow> nat list \<Rightarrow>
   (nat \<times> nat) list \<times> block \<Rightarrow> (nat \<times> nat) list \<times> block" where
  "flm_outer a b blo bhi [] st = st"
| "flm_outer a b blo bhi (i # is) (j2len, best) =
     flm_outer a b blo bhi is (flm_inner j2len i blo bhi (b2j b (a ! i)) ([], best))"

text \<open>The two loops that extend the best block to the left and to the right. The set
  \<^verbatim>\<open>bjunk\<close> is empty, so \<^verbatim>\<open>isbjunk\<close> is false everywhere and the two further
  loops over junk elements never run.\<close>

function extend_left :: "'a list \<Rightarrow> 'a list \<Rightarrow> nat \<Rightarrow> nat \<Rightarrow> block \<Rightarrow> block" where
  "extend_left a b alo blo (besti, bestj, bestsize) =
     (if besti > alo \<and> bestj > blo then
        (if a ! (besti - 1) = b ! (bestj - 1)
         then extend_left a b alo blo (besti - 1, bestj - 1, bestsize + 1)
         else (besti, bestj, bestsize))
      else (besti, bestj, bestsize))"
  by pat_completeness auto
termination
  by (relation "measure (\<lambda>(a, b, alo, blo, besti, bestj, bestsize). besti)") auto

function extend_right :: "'a list \<Rightarrow> 'a list \<Rightarrow> nat \<Rightarrow> nat \<Rightarrow> block \<Rightarrow> block" where
  "extend_right a b ahi bhi (besti, bestj, bestsize) =
     (if besti + bestsize < ahi \<and> bestj + bestsize < bhi then
        (if a ! (besti + bestsize) = b ! (bestj + bestsize)
         then extend_right a b ahi bhi (besti, bestj, bestsize + 1)
         else (besti, bestj, bestsize))
      else (besti, bestj, bestsize))"
  by pat_completeness auto
termination
  by (relation "measure (\<lambda>(a, b, ahi, bhi, besti, bestj, bestsize). ahi - (besti + bestsize))") auto

declare extend_left.simps [simp del] extend_right.simps [simp del]

definition find_longest_match :: "'a list \<Rightarrow> 'a list \<Rightarrow> nat \<Rightarrow> nat \<Rightarrow> nat \<Rightarrow> nat \<Rightarrow> block" where
  "find_longest_match a b alo ahi blo bhi =
     extend_right a b ahi bhi
       (extend_left a b alo blo
          (snd (flm_outer a b blo bhi [alo..<ahi] ([], (alo, blo, 0)))))"

text \<open>The block returned by \<^verbatim>\<open>find_longest_match\<close> lies inside the range of \<open>a\<close>
  it was asked about. This is what makes the loop of \<^verbatim>\<open>get_matching_blocks\<close>
  terminate, and what makes \<open>i + 1 - k\<close> above the same number as Python's \<open>i-k+1\<close>.\<close>

definition block_ok :: "nat \<Rightarrow> nat \<Rightarrow> block \<Rightarrow> bool" where
  "block_ok alo n bl = (case bl of (i, j, k) \<Rightarrow> alo \<le> i \<and> i + k \<le> max alo n)"

lemma j2len_get_le:
  assumes "\<forall>(j, k) \<in> set m. k \<le> n"
  shows "j2len_get m j \<le> n"
proof (cases "j = 0")
  case True then show ?thesis by (simp add: j2len_get_def)
next
  case False
  show ?thesis
  proof (cases "map_of m (j - 1)")
    case None with False show ?thesis by (simp add: j2len_get_def)
  next
    case (Some k)
    then have "(j - 1, k) \<in> set m" by (rule map_of_SomeD)
    with assms have "k \<le> n" by auto
    with Some False show ?thesis by (simp add: j2len_get_def)
  qed
qed

lemma flm_inner_inv:
  assumes "\<forall>(j, k) \<in> set j2len. k \<le> i - alo" and "alo \<le> i"
    and "\<forall>(j, k) \<in> set new. k \<le> Suc i - alo" and "block_ok alo (Suc i) best"
    and "flm_inner j2len i blo bhi js (new, best) = (new', best')"
  shows "(\<forall>(j, k) \<in> set new'. k \<le> Suc i - alo) \<and> block_ok alo (Suc i) best'"
  using assms
proof (induction js arbitrary: new best)
  case Nil
  then show ?case by simp
next
  case (Cons j js)
  show ?case
  proof (cases "j < blo")
    case True
    with Cons.prems have "flm_inner j2len i blo bhi js (new, best) = (new', best')" by simp
    from Cons.IH [OF Cons.prems(1,2,3,4) this] show ?thesis .
  next
    case nlt: False
    show ?thesis
    proof (cases "j \<ge> bhi")
      case True
      with nlt Cons.prems show ?thesis by simp
    next
      case False
      define k where "k = j2len_get j2len j + 1"
      have kle: "k \<le> Suc i - alo"
        using j2len_get_le [OF Cons.prems(1), of j] Cons.prems(2) by (simp add: k_def)
      have k1: "1 \<le> k" by (simp add: k_def)
      define best2 where "best2 = (if k > snd (snd best) then (i + 1 - k, j + 1 - k, k) else best)"
      have b2: "block_ok alo (Suc i) best2"
        using Cons.prems(4) kle k1 Cons.prems(2) by (auto simp: best2_def block_ok_def)
      have n2: "\<forall>(j, k) \<in> set ((j, k) # new). k \<le> Suc i - alo"
        using Cons.prems(3) kle by auto
      from Cons.prems(5) nlt False
      have "flm_inner j2len i blo bhi js ((j, k) # new, best2) = (new', best')"
        by (auto simp add: k_def best2_def Let_def split: if_splits)
      from Cons.IH [OF Cons.prems(1,2) n2 b2 this] show ?thesis .
    qed
  qed
qed

lemma flm_outer_inv:
  assumes "\<forall>(j, k) \<in> set j2len. k \<le> i0 - alo" and "alo \<le> i0"
    and "block_ok alo i0 best"
    and "flm_outer a b blo bhi [i0..<ahi] (j2len, best) = (m', best')"
  shows "block_ok alo (max i0 ahi) best'"
  using assms
proof (induction "ahi - i0" arbitrary: i0 j2len best)
  case 0
  then have "[i0..<ahi] = []" by simp
  with 0 show ?case by (simp add: max_def)
next
  case (Suc d)
  then have lt: "i0 < ahi" by simp
  then have up: "[i0..<ahi] = i0 # [Suc i0..<ahi]" by (simp add: upt_conv_Cons)
  obtain new bst where st: "flm_inner j2len i0 blo bhi (b2j b (a ! i0)) ([], best) = (new, bst)"
    by (cases "flm_inner j2len i0 blo bhi (b2j b (a ! i0)) ([], best)")
  have b0: "block_ok alo (Suc i0) best"
    using Suc.prems(3) by (auto simp: block_ok_def)
  have inv: "(\<forall>(j, k) \<in> set new. k \<le> Suc i0 - alo) \<and> block_ok alo (Suc i0) bst"
    by (rule flm_inner_inv [OF Suc.prems(1,2) _ b0 st]) simp
  from Suc.prems(4) up st
  have run: "flm_outer a b blo bhi [Suc i0..<ahi] (new, bst) = (m', best')" by simp
  have d: "d = ahi - Suc i0" using Suc.hyps(2) by simp
  have "block_ok alo (max (Suc i0) ahi) best'"
    using Suc.hyps(1) [OF d _ _ _ run] inv Suc.prems(2) by simp
  with lt show ?case by (simp add: max_def)
qed

lemma extend_left_inv:
  "block_ok alo n bl \<Longrightarrow> block_ok alo n (extend_left a b alo blo bl)"
proof (induction a b alo blo bl rule: extend_left.induct)
  case (1 a b alo blo besti bestj bestsize)
  show ?case
  proof (cases "besti > alo \<and> bestj > blo \<and> a ! (besti - 1) = b ! (bestj - 1)")
    case True
    then have "block_ok alo n (besti - 1, bestj - 1, bestsize + 1)"
      using "1.prems" by (auto simp: block_ok_def)
    with True "1.IH" show ?thesis by (simp add: extend_left.simps [of a b alo blo besti])
  next
    case False
    with "1.prems" show ?thesis by (auto simp: extend_left.simps [of a b alo blo besti])
  qed
qed

lemma extend_right_inv:
  "block_ok alo ahi bl \<Longrightarrow> block_ok alo ahi (extend_right a b ahi bhi bl)"
proof (induction a b ahi bhi bl rule: extend_right.induct)
  case (1 a b ahi bhi besti bestj bestsize)
  show ?case
  proof (cases "besti + bestsize < ahi \<and> bestj + bestsize < bhi \<and> a ! (besti + bestsize) = b ! (bestj + bestsize)")
    case True
    then have "block_ok alo ahi (besti, bestj, bestsize + 1)"
      using "1.prems" by (auto simp: block_ok_def)
    with True "1.IH" show ?thesis by (simp add: extend_right.simps [of a b ahi bhi besti])
  next
    case False
    with "1.prems" show ?thesis by (auto simp: extend_right.simps [of a b ahi bhi besti])
  qed
qed

lemma find_longest_match_bounds:
  assumes "find_longest_match a b alo ahi blo bhi = (i, j, k)" and "k \<noteq> 0"
  shows "alo \<le> i \<and> i + k \<le> ahi"
proof -
  obtain m best where st: "flm_outer a b blo bhi [alo..<ahi] ([], (alo, blo, 0)) = (m, best)"
    by (cases "flm_outer a b blo bhi [alo..<ahi] ([], (alo, blo, 0))")
  have "block_ok alo (max alo ahi) best"
    by (rule flm_outer_inv [OF _ _ _ st]) (simp_all add: block_ok_def)
  then have "block_ok alo ahi best" by (simp add: block_ok_def split: prod.splits)
  then have "block_ok alo ahi (extend_right a b ahi bhi (extend_left a b alo blo best))"
    by (intro extend_right_inv extend_left_inv)
  with assms st have "alo \<le> i \<and> i + k \<le> max alo ahi"
    by (simp add: find_longest_match_def block_ok_def)
  with assms(2) show ?thesis by (auto simp: max_def split: if_splits)
qed

text \<open>The loop of \<^verbatim>\<open>get_matching_blocks\<close>. The queue is used as a stack
  (\<^verbatim>\<open>queue.pop()\<close> takes the element appended last): its head is Python's last element.\<close>

type_synonym range4 = "nat \<times> nat \<times> nat \<times> nat"

definition queue_size :: "range4 list \<Rightarrow> nat" where
  "queue_size queue = sum_list (map (\<lambda>(alo, ahi, blo, bhi). 2 * (ahi - alo) + 1) queue)"

function gmb_loop :: "'a list \<Rightarrow> 'a list \<Rightarrow> range4 list \<Rightarrow> block list \<Rightarrow> block list" where
  "gmb_loop a b [] matching_blocks = matching_blocks"
| "gmb_loop a b ((alo, ahi, blo, bhi) # queue) matching_blocks =
     (case find_longest_match a b alo ahi blo bhi of (i, j, k) \<Rightarrow>
        if k \<noteq> 0 then
          gmb_loop a b
            ((if i + k < ahi \<and> j + k < bhi then [(i + k, ahi, j + k, bhi)] else []) @
             (if alo < i \<and> blo < j then [(alo, i, blo, j)] else []) @ queue)
            (matching_blocks @ [(i, j, k)])
        else gmb_loop a b queue matching_blocks)"
  by pat_completeness auto
termination
  apply (relation "measure (\<lambda>(a, b, queue, matching_blocks). queue_size queue)")
  apply simp
  apply (auto simp: queue_size_def dest!: find_longest_match_bounds [OF sym])
  done

declare gmb_loop.simps [simp del]

text \<open>The second half of \<^verbatim>\<open>get_matching_blocks\<close>: adjacent blocks are merged.\<close>

fun collapse :: "block \<Rightarrow> block list \<Rightarrow> block list" where
  "collapse (i1, j1, k1) [] = (if k1 \<noteq> 0 then [(i1, j1, k1)] else [])"
| "collapse (i1, j1, k1) ((i2, j2, k2) # blocks) =
     (if i1 + k1 = i2 \<and> j1 + k1 = j2 then collapse (i1, j1, k1 + k2) blocks
      else (if k1 \<noteq> 0 then [(i1, j1, k1)] else []) @ collapse (i2, j2, k2) blocks)"

definition get_matching_blocks :: "'a list \<Rightarrow> 'a list \<Rightarrow> block list" where
  "get_matching_blocks a b =
     collapse (0, 0, 0) (sort (gmb_loop a b [(0, length a, 0, length b)] [])) @
     [(length a, length b, 0)]"

datatype tag = Replace | Delete | Insert | Equal

type_synonym opcode = "tag \<times> nat \<times> nat \<times> nat \<times> nat"

fun opcodes_loop :: "nat \<Rightarrow> nat \<Rightarrow> block list \<Rightarrow> opcode list" where
  "opcodes_loop i j [] = []"
| "opcodes_loop i j ((ai, bj, sz) # blocks) =
     (if i < ai \<and> j < bj then [(Replace, i, ai, j, bj)]
      else if i < ai then [(Delete, i, ai, j, bj)]
      else if j < bj then [(Insert, i, ai, j, bj)]
      else []) @
     (if sz \<noteq> 0 then [(Equal, ai, ai + sz, bj, bj + sz)] else []) @
     opcodes_loop (ai + sz) (bj + sz) blocks"

definition get_opcodes :: "'a list \<Rightarrow> 'a list \<Rightarrow> opcode list" where
  "get_opcodes a b = opcodes_loop 0 0 (get_matching_blocks a b)"

text \<open>\<^verbatim>\<open>get_grouped_opcodes(n)\<close>: the first and the last opcode are trimmed to \<open>n\<close>
  lines of context when they are \<^verbatim>\<open>equal\<close>, then the loop cuts the opcodes into
  groups at every \<^verbatim>\<open>equal\<close> opcode longer than \<open>2n\<close>. The generator is the list of
  the groups it yields.\<close>

definition trim_first :: "nat \<Rightarrow> opcode list \<Rightarrow> opcode list" where
  "trim_first n codes =
     (case codes of
        (Equal, i1, i2, j1, j2) # rest \<Rightarrow> (Equal, max i1 (i2 - n), i2, max j1 (j2 - n), j2) # rest
      | _ \<Rightarrow> codes)"

definition trim_last :: "nat \<Rightarrow> opcode list \<Rightarrow> opcode list" where
  "trim_last n codes =
     (case rev codes of
        (Equal, i1, i2, j1, j2) # rest \<Rightarrow>
          rev rest @ [(Equal, i1, min i2 (i1 + n), j1, min j2 (j1 + n))]
      | _ \<Rightarrow> codes)"

fun group_loop :: "nat \<Rightarrow> opcode list \<Rightarrow> opcode list \<Rightarrow> opcode list list" where
  "group_loop n [] grp =
     (if grp \<noteq> [] \<and> \<not> (length grp = 1 \<and> fst (hd grp) = Equal) then [grp] else [])"
| "group_loop n ((tag, i1, i2, j1, j2) # codes) grp =
     (if tag = Equal \<and> i2 - i1 > n + n then
        (grp @ [(tag, i1, min i2 (i1 + n), j1, min j2 (j1 + n))]) #
        group_loop n codes [(tag, max i1 (i2 - n), i2, max j1 (j2 - n), j2)]
      else group_loop n codes (grp @ [(tag, i1, i2, j1, j2)]))"

definition get_grouped_opcodes :: "'a list \<Rightarrow> 'a list \<Rightarrow> nat \<Rightarrow> opcode list list" where
  "get_grouped_opcodes a b n =
     (let codes = get_opcodes a b;
          codes = (if codes = [] then [(Equal, 0, 1, 0, 1)] else codes)
      in group_loop n (trim_last n (trim_first n codes)) [])"


subsection \<open>Floating-point numbers\<close>

text \<open>
  A finite \<^verbatim>\<open>float\<close> is an IEEE 754 binary64 number. It is represented by its value, a
  rational number, and the operations round the exact result to the nearest number with a
  53-bit significand, a tie going to the even significand. All the numbers the comparator
  computes are quotients and products of list lengths, far from overflow and from the
  subnormal range, so the exponent is not bounded here.
\<close>

definition pow2 :: "int \<Rightarrow> rat" where
  "pow2 e = (if e \<ge> 0 then 2 ^ nat e else 1 / 2 ^ nat (- e))"

function lg_up :: "rat \<Rightarrow> nat" where
  "lg_up x = (if x \<ge> 2 then Suc (lg_up (x / 2)) else 0)"
  by pat_completeness auto
termination
proof (relation "measure (\<lambda>x. nat \<lfloor>x\<rfloor>)")
  show "wf (measure (\<lambda>x::rat. nat \<lfloor>x\<rfloor>))" by simp
next
  fix x :: rat assume "2 \<le> x"
  then have "x / 2 \<le> x - 1" by simp
  then have "\<lfloor>x / 2\<rfloor> \<le> \<lfloor>x - 1\<rfloor>" by (rule floor_mono)
  moreover have "\<lfloor>x\<rfloor> \<ge> 2" using \<open>2 \<le> x\<close> by (simp add: le_floor_iff)
  ultimately show "(x / 2, x) \<in> measure (\<lambda>x. nat \<lfloor>x\<rfloor>)" by simp
qed

function lg_down :: "rat \<Rightarrow> nat" where
  "lg_down x = (if 0 < x \<and> x < 1 then Suc (lg_down (2 * x)) else 0)"
  by pat_completeness auto
termination
proof (relation "measure (\<lambda>x. nat \<lceil>1 / x\<rceil>)")
  show "wf (measure (\<lambda>x::rat. nat \<lceil>1 / x\<rceil>))" by simp
next
  fix x :: rat assume a: "0 < x \<and> x < 1"
  define y where "y = 1 / x"
  have y1: "1 < y" using a by (simp add: y_def)
  have c2: "2 \<le> \<lceil>y\<rceil>" using y1 by (simp add: less_ceiling_iff)
  have "y \<le> of_int \<lceil>y\<rceil>" by (rule le_of_int_ceiling)
  moreover have "(2::rat) \<le> of_int \<lceil>y\<rceil>" using c2 by simp
  ultimately have "y / 2 \<le> of_int \<lceil>y\<rceil> - 1" by linarith
  then have "y / 2 \<le> of_int (\<lceil>y\<rceil> - 1)" by simp
  then have "\<lceil>y / 2\<rceil> \<le> \<lceil>y\<rceil> - 1" by (simp only: ceiling_le_iff)
  then have "nat \<lceil>y / 2\<rceil> < nat \<lceil>y\<rceil>" using c2 by linarith
  moreover have "1 / (2 * x) = y / 2" by (simp add: y_def)
  moreover have "1 / x = y" by (simp add: y_def)
  ultimately show "(2 * x, x) \<in> measure (\<lambda>x. nat \<lceil>1 / x\<rceil>)"
    by (simp only: in_measure)
qed

declare lg_up.simps [simp del] lg_down.simps [simp del]

text \<open>The exponent \<open>e\<close> of a positive number: \<open>2\<^sup>e \<le> x < 2\<^sup>e\<^sup>+\<^sup>1\<close>.\<close>

definition exponent :: "rat \<Rightarrow> int" where
  "exponent x = (if x \<ge> 1 then int (lg_up x) else - int (lg_down x))"

definition round_half_even :: "rat \<Rightarrow> int" where
  "round_half_even q =
     (let n = \<lfloor>q\<rfloor>; frac = q - of_int n in
      if frac < 1 / 2 then n else if frac > 1 / 2 then n + 1
      else if even n then n else n + 1)"

definition round_double :: "rat \<Rightarrow> rat" where
  "round_double x =
     (if x = 0 then 0
      else
        (let a = \<bar>x\<bar>; u = pow2 (exponent a - 52)
         in sgn x * of_int (round_half_even (a / u)) * u))"

text \<open>\<^verbatim>\<open>float(n)\<close>, the product and the quotient of two floats, the true division
  \<^verbatim>\<open>n / d\<close> of two integers (which Python rounds once, from the exact quotient), and a
  decimal literal such as \<^verbatim>\<open>0.7\<close>.\<close>

definition float_of_nat :: "nat \<Rightarrow> rat" where
  "float_of_nat n = round_double (of_nat n)"

definition fmul :: "rat \<Rightarrow> rat \<Rightarrow> rat" where
  "fmul x y = round_double (x * y)"

definition fdiv :: "rat \<Rightarrow> rat \<Rightarrow> rat" where
  "fdiv x y = round_double (x / y)"

definition true_divide :: "nat \<Rightarrow> nat \<Rightarrow> rat" where
  "true_divide n d = round_double (of_nat n / of_nat d)"

definition float_literal :: "rat \<Rightarrow> rat" where
  "float_literal q = round_double q"

text \<open>\<^verbatim>\<open>ratio()\<close> with \<^verbatim>\<open>_calculate_ratio\<close>: \<^verbatim>\<open>2.0 * matches / length\<close>, and
  \<^verbatim>\<open>1.0\<close> for two empty sequences.\<close>

definition matches :: "'a list \<Rightarrow> 'a list \<Rightarrow> nat" where
  "matches a b = sum_list (map (\<lambda>(i, j, k). k) (get_matching_blocks a b))"

definition ratio :: "'a list \<Rightarrow> 'a list \<Rightarrow> rat" where
  "ratio a b =
     (let len = length a + length b in
      if len \<noteq> 0 then fdiv (fmul 2 (float_of_nat (matches a b))) (float_of_nat len) else 1)"

subsection \<open>difflib.unified\_diff\<close>

definition slice :: "'a list \<Rightarrow> nat \<Rightarrow> nat \<Rightarrow> 'a list" where
  "slice xs i1 i2 = take (i2 - i1) (drop i1 xs)"

definition format_range_unified :: "nat \<Rightarrow> nat \<Rightarrow> ustring" where
  "format_range_unified start stop =
     (let beginning = start + 1; len = stop - start in
      if len = 1 then str_nat beginning
      else str_nat (if len = 0 then beginning - 1 else beginning) @ ustr '','' @ str_nat len)"

definition opcode_lines :: "ustring list \<Rightarrow> ustring list \<Rightarrow> opcode \<Rightarrow> ustring list" where
  "opcode_lines a b code =
     (case code of (tag, i1, i2, j1, j2) \<Rightarrow>
        if tag = Equal then map (\<lambda>line. ustr '' '' @ line) (slice a i1 i2)
        else
          (if tag = Replace \<or> tag = Delete then map (\<lambda>line. ustr ''-'' @ line) (slice a i1 i2)
           else []) @
          (if tag = Replace \<or> tag = Insert then map (\<lambda>line. ustr ''+'' @ line) (slice b j1 j2)
           else []))"

text \<open>One group: the hunk header, then the lines of its opcodes. A group is never empty;
  \<open>first\<close> and \<open>last\<close> are \<^verbatim>\<open>group[0]\<close> and \<^verbatim>\<open>group[-1]\<close>.\<close>

definition hunk_lines :: "ustring list \<Rightarrow> ustring list \<Rightarrow> opcode list \<Rightarrow> ustring list" where
  "hunk_lines a b grp =
     (case (hd grp, last grp) of ((t1, f1, f2, f3, f4), (t2, l1, l2, l3, l4)) \<Rightarrow>
        (ustr ''@@ -'' @ format_range_unified f1 l2 @ ustr '' +'' @ format_range_unified f3 l4 @
         ustr '' @@'') #
        concat (map (opcode_lines a b) grp))"

text \<open>\<^verbatim>\<open>unified_diff(a, b, lineterm='', n=n)\<close> with empty file names and dates: the two
  header lines come before the first group, and only when there is one.\<close>

definition unified_diff :: "ustring list \<Rightarrow> ustring list \<Rightarrow> nat \<Rightarrow> ustring list" where
  "unified_diff a b n =
     (case get_grouped_opcodes a b n of
        [] \<Rightarrow> []
      | groups \<Rightarrow> [ustr ''--- '', ustr ''+++ ''] @ concat (map (hunk_lines a b) groups))"

lemma group_loop_nonempty: "grp \<in> set (group_loop n codes g) \<Longrightarrow> grp \<noteq> []"
  by (induction n codes g rule: group_loop.induct) (auto split: if_splits)

lemma get_grouped_opcodes_nonempty: "grp \<in> set (get_grouped_opcodes a b n) \<Longrightarrow> grp \<noteq> []"
  unfolding get_grouped_opcodes_def Let_def by (rule group_loop_nonempty)

subsection \<open>The comparator\<close>

text \<open>The fields of \<^verbatim>\<open>ContentComparator\<close> set by \<^verbatim>\<open>__init__\<close>; the threshold is
  a finite float.\<close>

record comparator =
  threshold :: rat
  ignore_whitespace :: bool
  ignore_case :: bool

text \<open>The dataclass \<^verbatim>\<open>ComparisonResult\<close>.\<close>

record comparison_result =
  has_changes :: bool
  change_score :: rat
  added_lines :: "ustring list"
  removed_lines :: "ustring list"
  modified_lines :: "(ustring \<times> ustring) list"
  diff_summary :: ustring
  total_lines_old :: nat
  total_lines_new :: nat
  hash_old :: ustring
  hash_new :: ustring

text \<open>The exceptions that the statements of \<^verbatim>\<open>compare\<close> and of \<^verbatim>\<open>_hash\<close> can
  raise: \<^verbatim>\<open>str.encode\<close> on a text that UTF-8 cannot encode, \<^verbatim>\<open>list.remove\<close> on a
  missing element, and a division by zero.\<close>

datatype py_error = UnicodeEncodeError | ValueError | ZeroDivisionError

text \<open>
  \<^verbatim>\<open>content.encode()\<close>: the UTF-8 encoding with the error handler \<^verbatim>\<open>strict\<close>. A
  code point takes one to four bytes; a surrogate (0xD800 to 0xDFFF) has no encoding and
  raises \<^verbatim>\<open>UnicodeEncodeError\<close>.
\<close>

definition is_surrogate :: "nat \<Rightarrow> bool" where
  "is_surrogate c = (0xD800 \<le> c \<and> c \<le> 0xDFFF)"

definition encode_char :: "nat \<Rightarrow> nat list" where
  "encode_char c =
     (if c < 0x80 then [c]
      else if c < 0x800 then [0xC0 + c div 0x40, 0x80 + c mod 0x40]
      else if c < 0x10000 then
        [0xE0 + c div 0x1000, 0x80 + c div 0x40 mod 0x40, 0x80 + c mod 0x40]
      else
        [0xF0 + c div 0x40000, 0x80 + c div 0x1000 mod 0x40, 0x80 + c div 0x40 mod 0x40,
         0x80 + c mod 0x40])"

definition encode :: "ustring \<Rightarrow> py_error + nat list" where
  "encode content =
     (if list_ex is_surrogate content then Inl UnicodeEncodeError
      else Inr (concat (map encode_char content)))"

text \<open>\<^verbatim>\<open>_hash\<close>: \<^verbatim>\<open>hashlib.md5(content.encode()).hexdigest()\<close>. The digest of a byte
  string, as hexadecimal digits, is the parameter \<open>md5\<close>: every statement below holds
  whatever function of the bytes it is.\<close>

definition hash :: "(nat list \<Rightarrow> ustring) \<Rightarrow> ustring \<Rightarrow> py_error + ustring" where
  "hash md5 content =
     (case encode content of Inl e \<Rightarrow> Inl e | Inr bytes \<Rightarrow> Inr (md5 bytes))"

text \<open>\<^verbatim>\<open>_normalize_content\<close>; \<open>lower\<close> is \<^verbatim>\<open>str.lower\<close>.\<close>

definition normalize_content ::
  "(ustring \<Rightarrow> ustring) \<Rightarrow> comparator \<Rightarrow> ustring \<Rightarrow> ustring list" where
  "normalize_content lower self content =
     (let lines = splitlines content;
          lines = (if ignore_case self then map lower lines else lines);
          lines = (if ignore_whitespace self then map (\<lambda>line. join (ustr '' '') (split line)) lines
                   else lines)
      in filter (\<lambda>line. strip line \<noteq> []) lines)"

text \<open>\<^verbatim>\<open>_filter_dynamic_content\<close>: the inner loop with its \<^verbatim>\<open>break\<close> sets
  \<^verbatim>\<open>is_dynamic\<close> when one of the patterns is found in the line.\<close>

definition is_dynamic :: "ustring \<Rightarrow> bool" where
  "is_dynamic line = list_ex (\<lambda>pattern. re_search pattern line) DYNAMIC_PATTERNS"

definition filter_dynamic_content :: "ustring list \<Rightarrow> ustring list" where
  "filter_dynamic_content lines = filter (\<lambda>line. \<not> is_dynamic line) lines"

text \<open>\<^verbatim>\<open>_are_similar\<close> with its default threshold, the float \<^verbatim>\<open>0.7\<close>.\<close>

definition are_similar :: "ustring \<Rightarrow> ustring \<Rightarrow> bool" where
  "are_similar str1 str2 = (ratio str1 str2 \<ge> float_literal (7 / 10))"

text \<open>The \<^verbatim>\<open>while\<close> loop of \<^verbatim>\<open>compare\<close> over the lines of the diff; the state
  is \<^verbatim>\<open>(added, removed)\<close>.\<close>

definition is_header :: "ustring \<Rightarrow> bool" where
  "is_header line =
     (startswith line (ustr ''---'') \<or> startswith line (ustr ''+++'') \<or>
      startswith line (ustr ''@@''))"

fun parse_diff ::
  "ustring list \<Rightarrow> ustring list \<times> ustring list \<Rightarrow> ustring list \<times> ustring list" where
  "parse_diff [] st = st"
| "parse_diff (line # diff) (added, removed) =
     (if is_header line then parse_diff diff (added, removed)
      else if startswith line (ustr ''-'') then
        parse_diff diff (added, removed @ [strip (drop 1 line)])
      else if startswith line (ustr ''+'') then
        parse_diff diff (added @ [strip (drop 1 line)], removed)
      else parse_diff diff (added, removed))"

text \<open>\<^verbatim>\<open>xs.remove(x)\<close>: the first occurrence goes, and a missing \<open>x\<close> raises.\<close>

definition list_remove :: "'a \<Rightarrow> 'a list \<Rightarrow> py_error + 'a list" where
  "list_remove x xs = (if x \<in> set xs then Inr (remove1 x xs) else Inl ValueError)"

text \<open>The inner loop \<^verbatim>\<open>for add in added[:]\<close>: the first similar line, if any.\<close>

fun find_similar :: "ustring \<Rightarrow> ustring list \<Rightarrow> ustring option" where
  "find_similar rem [] = None"
| "find_similar rem (add # adds) =
     (if are_similar rem add then Some add else find_similar rem adds)"

text \<open>The outer loop \<^verbatim>\<open>for rem in removed[:]\<close> over the copy of \<^verbatim>\<open>removed\<close>; the
  state is \<^verbatim>\<open>(added, removed, modified)\<close>. The inner loop runs over a copy of
  \<^verbatim>\<open>added\<close> taken when it starts, that is over the current working list.\<close>

fun pair_loop ::
  "ustring list \<Rightarrow> ustring list \<times> ustring list \<times> (ustring \<times> ustring) list \<Rightarrow>
   py_error + (ustring list \<times> ustring list \<times> (ustring \<times> ustring) list)" where
  "pair_loop [] st = Inr st"
| "pair_loop (rem # rems) (added, removed, modified) =
     (case find_similar rem added of
        None \<Rightarrow> pair_loop rems (added, removed, modified)
      | Some add \<Rightarrow>
          (case list_remove rem removed of
             Inl e \<Rightarrow> Inl e
           | Inr removed' \<Rightarrow>
               (case list_remove add added of
                  Inl e \<Rightarrow> Inl e
                | Inr added' \<Rightarrow> pair_loop rems (added', removed', modified @ [(rem, add)]))))"

text \<open>\<^verbatim>\<open>f"{score:.2f}"\<close> for a score that is not negative: the value of the float with
  two decimals, correctly rounded, a tie going to the even digit.\<close>

definition format_2f :: "rat \<Rightarrow> ustring" where
  "format_2f score =
     (let n = nat (round_half_even (score * 100)) in
      str_nat (n div 100) @ ustr ''.'' @ [48 + n mod 100 div 10, 48 + n mod 10])"

text \<open>\<^verbatim>\<open>_generate_summary\<close>. The symbols of the headings are the code points 0x271A,
  0x2716, 0x270E, 0x2022 and 0x2192; 0xE9 is the letter e with an acute accent.\<close>

definition more_part :: "nat \<Rightarrow> nat \<Rightarrow> ustring list" where
  "more_part n shown =
     (if n > shown then [ustr ''  ... et '' @ str_nat (n - shown) @ ustr '' autres''] else [])"

definition generate_summary ::
  "ustring list \<Rightarrow> ustring list \<Rightarrow> (ustring \<times> ustring) list \<Rightarrow> rat \<Rightarrow> ustring" where
  "generate_summary added removed modified score =
     join NL
       ([ustr ''Score de changement: '' @ format_2f score @ ustr ''%''] @
        (if added \<noteq> [] then
           [[0x0A, 0x271A] @ ustr '' '' @ str_nat (length added) @ ustr '' ligne(s) ajout'' @
              [0xE9] @ ustr ''e(s):''] @
           map (\<lambda>line. ustr ''  + '' @ take 100 line) (take 5 added) @
           more_part (length added) 5
         else []) @
        (if removed \<noteq> [] then
           [[0x0A, 0x2716] @ ustr '' '' @ str_nat (length removed) @ ustr '' ligne(s) supprim'' @
              [0xE9] @ ustr ''e(s):''] @
           map (\<lambda>line. ustr ''  - '' @ take 100 line) (take 5 removed) @
           more_part (length removed) 5
         else []) @
        (if modified \<noteq> [] then
           [[0x0A, 0x270E] @ ustr '' '' @ str_nat (length modified) @ ustr '' ligne(s) modifi'' @
              [0xE9] @ ustr ''e(s):''] @
           map (\<lambda>(old, new). ustr ''  '' @ [0x2022] @ ustr '' '' @ take 80 old @ ustr '' '' @
                  [0x2192] @ ustr '' '' @ take 80 new) (take 3 modified) @
           more_part (length modified) 3
         else []))"

text \<open>The part of \<^verbatim>\<open>compare\<close> from the normalisation to the end of the \<^verbatim>\<open>while\<close>
  loop: the two line lists and the added and removed lines of the diff.\<close>

definition diff_lists ::
  "(ustring \<Rightarrow> ustring) \<Rightarrow> comparator \<Rightarrow> ustring \<Rightarrow> ustring \<Rightarrow> bool \<Rightarrow>
    ustring list \<times> ustring list \<times> ustring list \<times> ustring list" where
  "diff_lists lower self content_old content_new filter_dynamic =
     (let lines_old = normalize_content lower self content_old;
          lines_new = normalize_content lower self content_new;
          lines_old = (if filter_dynamic then filter_dynamic_content lines_old else lines_old);
          lines_new = (if filter_dynamic then filter_dynamic_content lines_new else lines_new);
          diff = unified_diff lines_old lines_new 0;
          (added, removed) = parse_diff diff ([], [])
      in (lines_old, lines_new, added, removed))"

text \<open>The denominator of the score: \<^verbatim>\<open>max(len(lines_old), len(lines_new), 1)\<close>.\<close>

definition total_lines :: "ustring list \<Rightarrow> ustring list \<Rightarrow> nat" where
  "total_lines lines_old lines_new = max (max (length lines_old) (length lines_new)) 1"

text \<open>The score \<^verbatim>\<open>(total_changes / total_lines) * 100\<close>: a true division of two
  integers, then a product of floats.\<close>

definition score_of :: "nat \<Rightarrow> nat \<Rightarrow> rat" where
  "score_of total_changes denominator =
     fmul (true_divide total_changes denominator) (float_of_nat 100)"

text \<open>The second part of \<^verbatim>\<open>compare\<close>, from the normalisation on, given the two hashes.\<close>

definition full_diff ::
  "(ustring \<Rightarrow> ustring) \<Rightarrow> comparator \<Rightarrow> ustring \<Rightarrow> ustring \<Rightarrow> bool \<Rightarrow> ustring \<Rightarrow> ustring \<Rightarrow>
   py_error + comparison_result" where
  "full_diff lower self content_old content_new filter_dynamic h_old h_new =
     (case diff_lists lower self content_old content_new filter_dynamic of
        (lines_old, lines_new, added0, removed0) \<Rightarrow>
     (case pair_loop removed0 (added0, removed0, []) of
        Inl e \<Rightarrow> Inl e
      | Inr (added, removed, modified) \<Rightarrow>
          (let total_changes = length added + length removed + length modified;
               total = total_lines lines_old lines_new
           in if total = 0 then Inl ZeroDivisionError
              else
                (let score = score_of total_changes total in
                 Inr \<lparr>has_changes = score > threshold self,
                      change_score = score,
                      added_lines = added,
                      removed_lines = removed,
                      modified_lines = modified,
                      diff_summary = generate_summary added removed modified score,
                      total_lines_old = length lines_old,
                      total_lines_new = length lines_new,
                      hash_old = h_old,
                      hash_new = h_new\<rparr>))))"

text \<open>\<^verbatim>\<open>compare\<close>: the two hashes first, each of which may raise; equal hashes give the
  result at once.\<close>

definition compare ::
  "(nat list \<Rightarrow> ustring) \<Rightarrow> (ustring \<Rightarrow> ustring) \<Rightarrow> comparator \<Rightarrow> ustring \<Rightarrow> ustring \<Rightarrow> bool \<Rightarrow>
   py_error + comparison_result" where
  "compare md5 lower self content_old content_new filter_dynamic =
     (case hash md5 content_old of
        Inl e \<Rightarrow> Inl e
      | Inr h_old \<Rightarrow>
     (case hash md5 content_new of
        Inl e \<Rightarrow> Inl e
      | Inr h_new \<Rightarrow>
          if h_old = h_new then
            Inr \<lparr>has_changes = False,
                 change_score = 0,
                 added_lines = [],
                 removed_lines = [],
                 modified_lines = [],
                 diff_summary = ustr ''Aucun changement'',
                 total_lines_old = length (splitlines content_old),
                 total_lines_new = length (splitlines content_new),
                 hash_old = h_old,
                 hash_new = h_new\<rparr>
          else full_diff lower self content_old content_new filter_dynamic h_old h_new))"

text \<open>\<^verbatim>\<open>compare_content\<close>: a comparator with the default flags, and the filter on.\<close>

definition compare_content ::
  "(nat list \<Rightarrow> ustring) \<Rightarrow> (ustring \<Rightarrow> ustring) \<Rightarrow> ustring \<Rightarrow> ustring \<Rightarrow> rat \<Rightarrow>
   py_error + comparison_result" where
  "compare_content md5 lower content_old content_new thr =
     compare md5 lower \<lparr>threshold = thr, ignore_whitespace = True, ignore_case = False\<rparr>
       content_old content_new True"

section \<open>Properties\<close>

subsection \<open>The pairing loop\<close>

text \<open>
  The pairing of removed and added lines as the specification words it: the removed lines
  are taken in order; each is paired with the first added line still in the working list whose
  ratio to it is at least 0.7, and that line leaves the working list; a removed line without
  such a partner stays. The result is the removed lines left, the added lines left, and the
  pairs. \<^const>\<open>List.extract\<close> splits a list at its first element with a property.
\<close>

fun greedy_pairing ::
  "ustring list \<Rightarrow> ustring list \<Rightarrow>
   ustring list \<times> ustring list \<times> (ustring \<times> ustring) list" where
  "greedy_pairing [] added = ([], added, [])"
| "greedy_pairing (rem # removed) added =
     (case List.extract (\<lambda>add. ratio rem add \<ge> float_literal (7 / 10)) added of
        None \<Rightarrow>
          (case greedy_pairing removed added of (rl, al, ps) \<Rightarrow> (rem # rl, al, ps))
      | Some (before, add, after) \<Rightarrow>
          (case greedy_pairing removed (before @ after) of
             (rl, al, ps) \<Rightarrow> (rl, al, (rem, add) # ps)))"

lemma find_similar_None:
  "find_similar rem added = None \<longleftrightarrow> (\<forall>add \<in> set added. \<not> are_similar rem add)"
  by (induction added) auto

lemma find_similar_Some:
  "find_similar rem added = Some add \<longleftrightarrow>
     (\<exists>before after. added = before @ add # after \<and> are_similar rem add \<and>
        (\<forall>x \<in> set before. \<not> are_similar rem x))"
proof (induction added)
  case Nil
  then show ?case by simp
next
  case (Cons x xs)
  show ?case
  proof (cases "are_similar rem x")
    case True
    have "(\<exists>before after. x # xs = before @ add # after \<and> are_similar rem add \<and>
        (\<forall>y \<in> set before. \<not> are_similar rem y)) \<longleftrightarrow> x = add"
    proof
      assume "\<exists>before after. x # xs = before @ add # after \<and> are_similar rem add \<and>
        (\<forall>y \<in> set before. \<not> are_similar rem y)"
      then obtain before after where *: "x # xs = before @ add # after"
        "\<forall>y \<in> set before. \<not> are_similar rem y" by blast
      show "x = add"
      proof (cases before)
        case Nil with * show ?thesis by simp
      next
        case (Cons b bs) with * True show ?thesis by auto
      qed
    next
      assume "x = add"
      with True have "x # xs = [] @ add # xs \<and> are_similar rem add \<and>
        (\<forall>y \<in> set []. \<not> are_similar rem y)" by simp
      then show "\<exists>before after. x # xs = before @ add # after \<and> are_similar rem add \<and>
        (\<forall>y \<in> set before. \<not> are_similar rem y)" by blast
    qed
    with True show ?thesis by simp
  next
    case False
    have "(\<exists>before after. x # xs = before @ add # after \<and> are_similar rem add \<and>
        (\<forall>y \<in> set before. \<not> are_similar rem y)) \<longleftrightarrow>
        (\<exists>before after. xs = before @ add # after \<and> are_similar rem add \<and>
        (\<forall>y \<in> set before. \<not> are_similar rem y))" (is "?L \<longleftrightarrow> ?R")
    proof
      assume ?L
      then obtain before after where *: "x # xs = before @ add # after" "are_similar rem add"
        "\<forall>y \<in> set before. \<not> are_similar rem y" by blast
      show ?R
      proof (cases before)
        case Nil with * False show ?thesis by simp
      next
        case (Cons b bs)
        with * have "xs = bs @ add # after \<and> are_similar rem add \<and>
          (\<forall>y \<in> set bs. \<not> are_similar rem y)" by simp
        then show ?thesis by blast
      qed
    next
      assume ?R
      then obtain before after where *: "xs = before @ add # after" "are_similar rem add"
        "\<forall>y \<in> set before. \<not> are_similar rem y" by blast
      with False have "x # xs = (x # before) @ add # after \<and> are_similar rem add \<and>
          (\<forall>y \<in> set (x # before). \<not> are_similar rem y)" by simp
      then show ?L by blast
    qed
    with False Cons.IH show ?thesis by simp
  qed
qed

lemma remove1_first: "x \<notin> set before \<Longrightarrow> remove1 x (before @ x # after) = before @ after"
  by (induction before) auto

text \<open>The loop of the source and the pairing of the specification agree. \<open>kept\<close> are the
  removed lines already passed over without a partner.\<close>

lemma pair_loop_greedy:
  assumes "\<forall>k \<in> set kept. \<forall>a \<in> set added. \<not> are_similar k a"
  shows "pair_loop rems (added, kept @ rems, modified) =
           (case greedy_pairing rems added of
              (rl, al, ps) \<Rightarrow> Inr (al, kept @ rl, modified @ ps))"
  using assms
proof (induction rems arbitrary: kept added modified)
  case Nil
  then show ?case by simp
next
  case (Cons rem rems)
  show ?case
  proof (cases "find_similar rem added")
    case None
    then have no: "\<forall>a \<in> set added. \<not> are_similar rem a" by (simp add: find_similar_None)
    then have ex: "List.extract (\<lambda>add. ratio rem add \<ge> float_literal (7 / 10)) added = None"
      by (simp add: extract_None_iff are_similar_def)
    have inv: "\<forall>k \<in> set (kept @ [rem]). \<forall>a \<in> set added. \<not> are_similar k a"
      using Cons.prems no by auto
    have "pair_loop (rem # rems) (added, kept @ rem # rems, modified) =
          pair_loop rems (added, (kept @ [rem]) @ rems, modified)"
      using None by simp
    also have "\<dots> = (case greedy_pairing rems added of
              (rl, al, ps) \<Rightarrow> Inr (al, (kept @ [rem]) @ rl, modified @ ps))"
      by (rule Cons.IH [OF inv])
    finally show ?thesis using ex by (simp split: prod.splits)
  next
    case (Some add)
    then obtain before after where sp: "added = before @ add # after" "are_similar rem add"
      "\<forall>x \<in> set before. \<not> are_similar rem x" by (auto simp: find_similar_Some)
    then have ex: "List.extract (\<lambda>add. ratio rem add \<ge> float_literal (7 / 10)) added = Some (before, add, after)"
      by (simp add: extract_Some_iff are_similar_def)
    have "add \<in> set added" using sp by simp
    with Cons.prems sp(2) have notkept: "rem \<notin> set kept" by blast
    have r1: "list_remove rem (kept @ rem # rems) = Inr (kept @ rems)"
      using notkept by (simp add: list_remove_def remove1_first)
    have "add \<notin> set before" using sp by blast
    then have r2: "list_remove add added = Inr (before @ after)"
      using sp(1) by (simp add: list_remove_def remove1_first)
    have inv: "\<forall>k \<in> set kept. \<forall>a \<in> set (before @ after). \<not> are_similar k a"
      using Cons.prems sp(1) by auto
    have "pair_loop (rem # rems) (added, kept @ rem # rems, modified) =
          pair_loop rems (before @ after, kept @ rems, modified @ [(rem, add)])"
      using Some r1 r2 by simp
    also have "\<dots> = (case greedy_pairing rems (before @ after) of
              (rl, al, ps) \<Rightarrow> Inr (al, kept @ rl, (modified @ [(rem, add)]) @ ps))"
      by (rule Cons.IH [OF inv])
    finally show ?thesis using ex by (simp split: prod.splits)
  qed
qed

lemma pair_loop_start:
  "pair_loop removed (added, removed, []) =
     (case greedy_pairing removed added of (rl, al, ps) \<Rightarrow> Inr (al, rl, ps))"
  using pair_loop_greedy [of "[]" added removed "[]"] by simp

lemma greedy_pairing_mset:
  "greedy_pairing removed added = (rl, al, ps) \<Longrightarrow>
   mset removed = mset rl + mset (map fst ps) \<and> mset added = mset al + mset (map snd ps)"
proof (induction removed arbitrary: added rl al ps)
  case Nil
  then show ?case by simp
next
  case (Cons rem removed)
  show ?case
  proof (cases "List.extract (\<lambda>add. ratio rem add \<ge> float_literal (7 / 10)) added")
    case None
    obtain rl' al' ps' where g: "greedy_pairing removed added = (rl', al', ps')"
      by (cases "greedy_pairing removed added")
    from Cons.prems None g have "rl = rem # rl'" "al = al'" "ps = ps'" by simp_all
    with Cons.IH [OF g] show ?thesis by simp
  next
    case (Some t)
    obtain before add after where t: "t = (before, add, after)" by (cases t)
    obtain rl' al' ps' where g: "greedy_pairing removed (before @ after) = (rl', al', ps')"
      by (cases "greedy_pairing removed (before @ after)")
    from Some t have a: "added = before @ add # after" by (simp add: extract_Some_iff)
    from Cons.prems Some t g have "rl = rl'" "al = al'" "ps = (rem, add) # ps'" by simp_all
    with Cons.IH [OF g] a show ?thesis by simp
  qed
qed

lemma greedy_pairing_similar:
  "greedy_pairing removed added = (rl, al, ps) \<Longrightarrow>
   \<forall>(rem, add) \<in> set ps. ratio rem add \<ge> float_literal (7 / 10)"
proof (induction removed arbitrary: added rl al ps)
  case Nil
  then show ?case by simp
next
  case (Cons rem removed)
  show ?case
  proof (cases "List.extract (\<lambda>add. ratio rem add \<ge> float_literal (7 / 10)) added")
    case None
    obtain rl' al' ps' where g: "greedy_pairing removed added = (rl', al', ps')"
      by (cases "greedy_pairing removed added")
    from Cons.prems None g have "ps = ps'" by simp
    with Cons.IH [OF g] show ?thesis by simp
  next
    case (Some t)
    obtain before add after where t: "t = (before, add, after)" by (cases t)
    obtain rl' al' ps' where g: "greedy_pairing removed (before @ after) = (rl', al', ps')"
      by (cases "greedy_pairing removed (before @ after)")
    from Some t have a: "ratio rem add \<ge> float_literal (7 / 10)"
      by (simp add: extract_Some_iff)
    from Cons.prems Some t g have "ps = (rem, add) # ps'" by simp
    with Cons.IH [OF g] a show ?thesis by simp
  qed
qed

lemma mset_parts_disjoint:
  assumes "mset xs = mset ys + mset zs" and "distinct xs"
  shows "set ys \<inter> set zs = {}"
proof (rule ccontr)
  assume "set ys \<inter> set zs \<noteq> {}"
  then obtain x where "x \<in> set ys" "x \<in> set zs" by blast
  then have "count (mset ys) x \<ge> 1" "count (mset zs) x \<ge> 1" by simp_all
  moreover have "count (mset xs) x = count (mset ys) x + count (mset zs) x"
    using assms(1) by simp
  ultimately have "count (mset xs) x \<ge> 2" by linarith
  moreover have "count (mset xs) x \<le> 1" using assms(2) by (simp add: distinct_count_atmost_1)
  ultimately show False by simp
qed

subsection \<open>The two branches of compare\<close>

lemma hash_encodable:
  "\<not> list_ex is_surrogate content \<Longrightarrow>
   hash md5 content = Inr (md5 (concat (map encode_char content)))"
  by (simp add: hash_def encode_def)

lemma hash_surrogate:
  "list_ex is_surrogate content \<Longrightarrow> hash md5 content = Inl UnicodeEncodeError"
  by (simp add: hash_def encode_def)

lemma hash_cases:
  "(hash md5 content = Inl UnicodeEncodeError \<and> list_ex is_surrogate content) \<or>
   (\<exists>h. hash md5 content = Inr h \<and> \<not> list_ex is_surrogate content)"
  by (cases "list_ex is_surrogate content") (simp_all add: hash_encodable hash_surrogate)

lemma compare_full_diff:
  assumes "\<not> list_ex is_surrogate content_old" and "\<not> list_ex is_surrogate content_new"
    and "hash md5 content_old \<noteq> hash md5 content_new"
  shows "compare md5 lower self content_old content_new filter_dynamic =
         full_diff lower self content_old content_new filter_dynamic
           (md5 (concat (map encode_char content_old)))
           (md5 (concat (map encode_char content_new)))"
  using assms by (simp add: compare_def hash_encodable)

lemma compare_raises:
  assumes "list_ex is_surrogate content_old \<or> list_ex is_surrogate content_new"
  shows "compare md5 lower self content_old content_new filter_dynamic = Inl UnicodeEncodeError"
proof (cases "list_ex is_surrogate content_old")
  case True
  then show ?thesis by (simp add: compare_def hash_surrogate)
next
  case False
  with assms have "list_ex is_surrogate content_new" by simp
  with False show ?thesis by (simp add: compare_def hash_surrogate hash_encodable)
qed

lemma unified_diff_empty: "unified_diff [] [] 0 = []"
  by code_simp

lemma diff_lists_parse:
  assumes "diff_lists lower self content_old content_new f =
             (lines_old, lines_new, added0, removed0)"
  shows "parse_diff (unified_diff lines_old lines_new 0) ([], []) = (added0, removed0)"
  using assms by (auto simp: diff_lists_def Let_def split: prod.splits)

lemma diff_lists_empty:
  assumes "diff_lists lower self content_old content_new f = ([], [], added0, removed0)"
  shows "added0 = [] \<and> removed0 = []"
  using diff_lists_parse [OF assms] by (simp add: unified_diff_empty)

lemma score_of_zero: "score_of 0 n = 0"
  by (simp add: score_of_def true_divide_def fmul_def round_double_def)

lemma full_diff_result:
  assumes "diff_lists lower self content_old content_new filter_dynamic =
             (lines_old, lines_new, added0, removed0)"
    and "greedy_pairing removed0 added0 = (rl, al, ps)"
  shows "full_diff lower self content_old content_new filter_dynamic h_old h_new =
     Inr \<lparr>has_changes =
            score_of (length al + length rl + length ps)
              (max (max (length lines_old) (length lines_new)) 1) > threshold self,
          change_score =
            score_of (length al + length rl + length ps)
              (max (max (length lines_old) (length lines_new)) 1),
          added_lines = al,
          removed_lines = rl,
          modified_lines = ps,
          diff_summary = generate_summary al rl ps
            (score_of (length al + length rl + length ps)
              (max (max (length lines_old) (length lines_new)) 1)),
          total_lines_old = length lines_old,
          total_lines_new = length lines_new,
          hash_old = h_old,
          hash_new = h_new\<rparr>"
  using assms by (simp add: full_diff_def pair_loop_start Let_def total_lines_def)

text \<open>The flags that do not enter the line lists: the threshold, and \<^verbatim>\<open>str.lower\<close> when
  the case is kept.\<close>

lemma diff_lists_closed:
  "diff_lists lower \<lparr>threshold = t, ignore_whitespace = w, ignore_case = False\<rparr>
     content_old content_new f =
   diff_lists id \<lparr>threshold = 0, ignore_whitespace = w, ignore_case = False\<rparr>
     content_old content_new f"
  by (simp add: diff_lists_def normalize_content_def)

lemma diff_lists_lines:
  assumes "diff_lists lower self content_old content_new f =
             (lines_old, lines_new, added0, removed0)"
  shows "lines_old = (if f then filter_dynamic_content (normalize_content lower self content_old)
                      else normalize_content lower self content_old) \<and>
         lines_new = (if f then filter_dynamic_content (normalize_content lower self content_new)
                      else normalize_content lower self content_new)"
  using assms by (auto simp: diff_lists_def Let_def split: prod.splits)

subsection \<open>Claims\<close>

text \<open>
  C1, as far as it holds. For two texts without surrogate code points whose hashes are equal,
  so in particular for \<^verbatim>\<open>compare(x, x)\<close> on such a text, \<^verbatim>\<open>compare\<close> returns at
  once: no change, score 0, no added, removed or modified line, the summary
  "Aucun changement", and the two line counts are those of the raw \<^verbatim>\<open>splitlines\<close> of
  each text. Neither the flags, the threshold nor the filter enter the result.
\<close>

theorem compare_equal_hashes:
  assumes "\<not> list_ex is_surrogate content_old" and "\<not> list_ex is_surrogate content_new"
    and "hash md5 content_old = hash md5 content_new"
  shows "compare md5 lower self content_old content_new filter_dynamic =
     Inr \<lparr>has_changes = False,
          change_score = 0,
          added_lines = [],
          removed_lines = [],
          modified_lines = [],
          diff_summary = ustr ''Aucun changement'',
          total_lines_old = length (splitlines content_old),
          total_lines_new = length (splitlines content_new),
          hash_old = md5 (concat (map encode_char content_old)),
          hash_new = md5 (concat (map encode_char content_new))\<rparr>"
proof -
  have o: "hash md5 content_old = Inr (md5 (concat (map encode_char content_old)))"
    by (rule hash_encodable [OF assms(1)])
  have n: "hash md5 content_new = Inr (md5 (concat (map encode_char content_new)))"
    by (rule hash_encodable [OF assms(2)])
  from assms(3) have e: "md5 (concat (map encode_char content_old)) =
      md5 (concat (map encode_char content_new))"
    unfolding o n by simp
  show ?thesis unfolding compare_def o n using e by simp
qed

text \<open>The text "Price: 99 \<euro>" with its newline, compared with itself under threshold 0.\<close>

theorem compare_equal_hashes_witness:
  "\<not> list_ex is_surrogate (ustr ''Price: 99 '' @ [0x20AC] @ NL) \<and>
   hash id (ustr ''Price: 99 '' @ [0x20AC] @ NL) = hash id (ustr ''Price: 99 '' @ [0x20AC] @ NL) \<and>
   compare id id \<lparr>threshold = 0, ignore_whitespace = True, ignore_case = False\<rparr>
     (ustr ''Price: 99 '' @ [0x20AC] @ NL) (ustr ''Price: 99 '' @ [0x20AC] @ NL) True =
     Inr \<lparr>has_changes = False,
          change_score = 0,
          added_lines = [],
          removed_lines = [],
          modified_lines = [],
          diff_summary = ustr ''Aucun changement'',
          total_lines_old = 1,
          total_lines_new = 1,
          hash_old = ustr ''Price: 99 '' @ [0xE2, 0x82, 0xAC, 0x0A],
          hash_new = ustr ''Price: 99 '' @ [0xE2, 0x82, 0xAC, 0x0A]\<rparr>"
proof -
  let ?x = "ustr ''Price: 99 '' @ [0x20AC] @ NL"
  have ns: "\<not> list_ex is_surrogate ?x" by code_simp
  have l: "length (splitlines ?x) = 1" by code_simp
  have h: "id (concat (map encode_char ?x)) = ustr ''Price: 99 '' @ [0xE2, 0x82, 0xAC, 0x0A]"
    by code_simp
  note c = compare_equal_hashes [of ?x ?x id id
      "\<lparr>threshold = 0, ignore_whitespace = True, ignore_case = False\<rparr>" True,
      OF ns ns refl, unfolded l h]
  show ?thesis by (intro conjI ns refl c)
qed

text \<open>
  C1 as it is worded fails: \<^verbatim>\<open>compare(x, x)\<close> does not give the no-change result for
  any string \<open>x\<close>. On the one-character string with the lone surrogate U+D800 (a
  \<^verbatim>\<open>str\<close> that \<^verbatim>\<open>json.loads\<close> produces from \<^verbatim>\<open>"\ud800"\<close>) the call
  \<^verbatim>\<open>content.encode()\<close> of \<^verbatim>\<open>_hash\<close> raises before any hash exists.
\<close>

theorem compare_identity_surrogate:
  "compare id id \<lparr>threshold = 1, ignore_whitespace = True, ignore_case = False\<rparr>
     [0xD800] [0xD800] True = Inl UnicodeEncodeError"
  by code_simp

text \<open>
  C2. In the branch with different hashes the score is
  \<^verbatim>\<open>(len(added) + len(removed) + len(modified)) / max(total_lines_old, total_lines_new, 1) * 100\<close>
  in the arithmetic of floats (the quotient of the two integers rounded to a double, its
  product with 100 rounded again), the two totals are the lengths of the normalised (and,
  when asked for, filtered) line lists, and \<^verbatim>\<open>has_changes\<close> holds exactly when the score
  is strictly above the threshold: a score equal to the threshold gives
  \<^verbatim>\<open>has_changes = False\<close>.
\<close>

theorem change_score_formula:
  assumes "\<not> list_ex is_surrogate content_old" and "\<not> list_ex is_surrogate content_new"
    and "hash md5 content_old \<noteq> hash md5 content_new"
  shows "\<exists>r. compare md5 lower self content_old content_new filter_dynamic = Inr r \<and>
     change_score r =
       fmul (true_divide
               (length (added_lines r) + length (removed_lines r) + length (modified_lines r))
               (max (max (total_lines_old r) (total_lines_new r)) 1))
            (float_of_nat 100) \<and>
     total_lines_old r =
       length (if filter_dynamic
               then filter_dynamic_content (normalize_content lower self content_old)
               else normalize_content lower self content_old) \<and>
     total_lines_new r =
       length (if filter_dynamic
               then filter_dynamic_content (normalize_content lower self content_new)
               else normalize_content lower self content_new) \<and>
     (has_changes r \<longleftrightarrow> change_score r > threshold self) \<and>
     (change_score r = threshold self \<longrightarrow> \<not> has_changes r)"
proof -
  obtain lo ln a0 r0 where
    dl: "diff_lists lower self content_old content_new filter_dynamic = (lo, ln, a0, r0)"
    by (cases "diff_lists lower self content_old content_new filter_dynamic")
  obtain rl al ps where gp: "greedy_pairing r0 a0 = (rl, al, ps)"
    by (cases "greedy_pairing r0 a0")
  note ls = diff_lists_lines [OF dl]
  show ?thesis
    unfolding compare_full_diff [OF assms] full_diff_result [OF dl gp]
    using ls by (simp add: score_of_def)
qed

text \<open>Two lines against the first of them, with the threshold 50.0: one removed line over
  two lines is the score 50.0, equal to the threshold, and \<^verbatim>\<open>has_changes\<close> is
  \<^verbatim>\<open>False\<close>.\<close>

theorem change_score_formula_witness:
  "\<not> list_ex is_surrogate (ustr ''A'' @ NL @ ustr ''B'' @ NL) \<and>
   \<not> list_ex is_surrogate (ustr ''A'' @ NL) \<and>
   hash id (ustr ''A'' @ NL @ ustr ''B'' @ NL) \<noteq> hash id (ustr ''A'' @ NL) \<and>
   (\<exists>r. compare id id \<lparr>threshold = 50, ignore_whitespace = True, ignore_case = False\<rparr>
          (ustr ''A'' @ NL @ ustr ''B'' @ NL) (ustr ''A'' @ NL) True = Inr r \<and>
        change_score r = fmul (true_divide (0 + 1 + 0) (max (max 2 1) 1)) (float_of_nat 100) \<and>
        change_score r = 50 \<and> \<not> has_changes r)"
proof -
  let ?self = "\<lparr>threshold = 50, ignore_whitespace = True, ignore_case = False\<rparr>"
  let ?old = "ustr ''A'' @ NL @ ustr ''B'' @ NL" and ?new = "ustr ''A'' @ NL"
  have n1: "\<not> list_ex is_surrogate ?old" by code_simp
  have n2: "\<not> list_ex is_surrogate ?new" by code_simp
  have ne: "hash id ?old \<noteq> hash id ?new" by code_simp
  have dl: "diff_lists id ?self ?old ?new True =
              ([ustr ''A'', ustr ''B''], [ustr ''A''], [], [ustr ''B''])"
    by code_simp
  have gp: "greedy_pairing [ustr ''B''] [] = ([ustr ''B''], [], [])"
    by (simp add: extract_Nil_code)
  have sc: "fmul (true_divide (0 + 1 + 0) (max (max 2 1) 1)) (float_of_nat 100) = 50"
    by code_simp
  from change_score_formula [of ?old ?new id id ?self True, OF n1 n2 ne]
  obtain r where r: "compare id id ?self ?old ?new True = Inr r"
    and f: "change_score r =
       fmul (true_divide
               (length (added_lines r) + length (removed_lines r) + length (modified_lines r))
               (max (max (total_lines_old r) (total_lines_new r)) 1))
            (float_of_nat 100)"
    and b: "change_score r = threshold ?self \<longrightarrow> \<not> has_changes r"
    by blast
  from r have l: "length (added_lines r) = 0" "length (removed_lines r) = 1"
    "length (modified_lines r) = 0" "total_lines_old r = 2" "total_lines_new r = 1"
    unfolding compare_full_diff [OF n1 n2 ne] full_diff_result [OF dl gp] by auto
  from f have f': "change_score r =
      fmul (true_divide (0 + 1 + 0) (max (max 2 1) 1)) (float_of_nat 100)"
    unfolding l .
  with sc have s50: "change_score r = 50" by simp
  with b have "\<not> has_changes r" by simp
  with r f' s50 n1 n2 ne show ?thesis by blast
qed

text \<open>The rounding of the two operations is visible: seven changes over 25 lines give a
  score above 28, and one change over three lines a score below 100/3.\<close>

lemma score_of_rounding:
  "score_of 7 25 = 7881299347898369 / 281474976710656 \<and> score_of 7 25 > 28 \<and>
   score_of 1 3 = 2345624805922133 / 70368744177664 \<and> score_of 1 3 < 100 / 3"
  by code_simp

text \<open>
  C8, as far as it holds. On two texts without surrogate code points \<^verbatim>\<open>compare\<close> raises
  nothing and returns a result, whatever the flags and the threshold: the \<^verbatim>\<open>remove\<close>
  calls of the pairing loop always find their element, and the denominator of the score,
  \<^verbatim>\<open>max(len(lines_old), len(lines_new), 1)\<close>, is at least 1. When both line lists of
  the result are empty the score is 0.
\<close>

theorem compare_total:
  assumes "\<not> list_ex is_surrogate content_old" and "\<not> list_ex is_surrogate content_new"
  shows "(\<exists>r. compare md5 lower self content_old content_new filter_dynamic = Inr r \<and>
              (total_lines_old r = 0 \<and> total_lines_new r = 0 \<longrightarrow> change_score r = 0)) \<and>
         (\<exists>st. pair_loop removed (added, removed, []) = Inr st) \<and>
         total_lines lines_old lines_new \<ge> 1"
proof (intro conjI)
  obtain lo ln a0 r0 where
    dl: "diff_lists lower self content_old content_new filter_dynamic = (lo, ln, a0, r0)"
    by (cases "diff_lists lower self content_old content_new filter_dynamic")
  obtain rl al ps where gp: "greedy_pairing r0 a0 = (rl, al, ps)"
    by (cases "greedy_pairing r0 a0")
  show "\<exists>r. compare md5 lower self content_old content_new filter_dynamic = Inr r \<and>
              (total_lines_old r = 0 \<and> total_lines_new r = 0 \<longrightarrow> change_score r = 0)"
  proof (cases "hash md5 content_old = hash md5 content_new")
    case True
    have o: "hash md5 content_old = Inr (md5 (concat (map encode_char content_old)))"
      by (rule hash_encodable [OF assms(1)])
    have n: "hash md5 content_new = Inr (md5 (concat (map encode_char content_new)))"
      by (rule hash_encodable [OF assms(2)])
    from True have e: "md5 (concat (map encode_char content_old)) =
        md5 (concat (map encode_char content_new))"
      unfolding o n by simp
    show ?thesis unfolding compare_def o n using e by simp
  next
    case False
    have z: "lo = [] \<and> ln = [] \<longrightarrow> length al + length rl + length ps = 0"
    proof
      assume "lo = [] \<and> ln = []"
      with dl have "a0 = [] \<and> r0 = []" by (simp add: diff_lists_empty)
      with gp show "length al + length rl + length ps = 0" by auto
    qed
    show ?thesis
      unfolding compare_full_diff [OF assms False] full_diff_result [OF dl gp]
      using z by (auto simp: score_of_zero)
  qed
  show "\<exists>st. pair_loop removed (added, removed, []) = Inr st"
    by (simp add: pair_loop_start split: prod.splits)
  show "total_lines lines_old lines_new \<ge> 1"
    by (simp add: total_lines_def)
qed

text \<open>A text that is one newline against a text that is one space: both have no line left
  after the normalisation, the hashes differ, and the score is 0 over the denominator 1.\<close>

theorem compare_total_witness:
  "\<not> list_ex is_surrogate [0x0A] \<and> \<not> list_ex is_surrogate [0x20] \<and>
   (\<exists>r. compare id id \<lparr>threshold = 1, ignore_whitespace = True, ignore_case = False\<rparr>
          [0x0A] [0x20] True = Inr r \<and>
        total_lines_old r = 0 \<and> total_lines_new r = 0 \<and> change_score r = 0 \<and>
        hash_old r \<noteq> hash_new r)"
proof -
  let ?self = "\<lparr>threshold = 1, ignore_whitespace = True, ignore_case = False\<rparr>"
  have n1: "\<not> list_ex is_surrogate [0x0A]" by code_simp
  have n2: "\<not> list_ex is_surrogate [0x20]" by code_simp
  have ev: "case compare id id ?self [0x0A] [0x20] True of
              Inl e \<Rightarrow> False
            | Inr r \<Rightarrow> total_lines_old r = 0 \<and> total_lines_new r = 0 \<and>
                hash_old r \<noteq> hash_new r"
    by code_simp
  from compare_total [of "[0x0A]" "[0x20]" id id ?self True, OF n1 n2]
  obtain r where r: "compare id id ?self [0x0A] [0x20] True = Inr r"
    and z: "total_lines_old r = 0 \<and> total_lines_new r = 0 \<longrightarrow> change_score r = 0"
    by blast
  from ev r have t: "total_lines_old r = 0 \<and> total_lines_new r = 0 \<and> hash_old r \<noteq> hash_new r"
    by simp
  with z have "change_score r = 0" by blast
  with r t n1 n2 show ?thesis by blast
qed

text \<open>
  C8 as it is worded fails: \<^verbatim>\<open>compare\<close> is not total on all pairs of strings. A text
  read from malformed bytes with the error handler \<^verbatim>\<open>surrogateescape\<close> holds lone
  surrogates, here "A" followed by U+DC80, and on it \<^verbatim>\<open>_hash\<close> raises
  \<^verbatim>\<open>UnicodeEncodeError\<close>; no result is returned.
\<close>

theorem compare_raises_on_surrogate:
  "compare id id \<lparr>threshold = 1, ignore_whitespace = True, ignore_case = False\<rparr>
     (ustr ''A'') (ustr ''A'' @ [0xDC80]) True = Inl UnicodeEncodeError"
  by code_simp

end
